theory Spec2Isabelle
  imports Main "HOL-Library.Word" "HOL-Library.Multiset"
begin

section \<open>Errors\<close>

text \<open>
  The errors the package returns, one constructor per \<^verbatim>\<open>xerrors.New\<close> or
  \<^verbatim>\<open>xerrors.Errorf\<close> site of the source (the rendering of the request with
  \<^verbatim>\<open>%v\<close> is left out of the message). \<open>Wrapped msg e\<close> is
  \<^verbatim>\<open>xerrors.Errorf(msg + ": %w", e)\<close>. \<open>Opaque\<close> is an error of a
  collaborator (storage backend, profile codec, zip writer, output stream).
  \<open>NilDereference\<close> stands for the run-time panic of reading a field through a nil
  pointer.
\<close>

datatype error =
    NilRequest
  | IdEmpty
  | ServiceEmpty
  | TokenEmpty
  | UnknownType string
  | NoService
  | CreatedAtZero
  | CreatedAtMinAfterMax
  | Wrapped string error
  | Opaque string
  | NilDereference

section \<open>Library functions the package calls\<close>

subsection \<open>\<^verbatim>\<open>strings.TrimSpace\<close>\<close>

text \<open>
  A Go string is a sequence of bytes; \<^verbatim>\<open>strings.TrimSpace\<close> removes the leading and
  the trailing white space runes of its UTF-8 reading, white space being
  \<^verbatim>\<open>unicode.IsSpace\<close>: U+0009..U+000D, U+0020, U+0085, U+00A0, U+1680,
  U+2000..U+200A, U+2028, U+2029, U+202F, U+205F, U+3000. \<open>spaceRunes\<close> lists their
  UTF-8 encodings.
\<close>

definition spaceRunes :: "string list" where
  "spaceRunes =
     [[CHR 0x09], [CHR 0x0A], [CHR 0x0B], [CHR 0x0C], [CHR 0x0D], [CHR 0x20],
      [CHR 0xC2, CHR 0x85], [CHR 0xC2, CHR 0xA0],
      [CHR 0xE1, CHR 0x9A, CHR 0x80],
      [CHR 0xE2, CHR 0x80, CHR 0x80], [CHR 0xE2, CHR 0x80, CHR 0x81],
      [CHR 0xE2, CHR 0x80, CHR 0x82], [CHR 0xE2, CHR 0x80, CHR 0x83],
      [CHR 0xE2, CHR 0x80, CHR 0x84], [CHR 0xE2, CHR 0x80, CHR 0x85],
      [CHR 0xE2, CHR 0x80, CHR 0x86], [CHR 0xE2, CHR 0x80, CHR 0x87],
      [CHR 0xE2, CHR 0x80, CHR 0x88], [CHR 0xE2, CHR 0x80, CHR 0x89],
      [CHR 0xE2, CHR 0x80, CHR 0x8A],
      [CHR 0xE2, CHR 0x80, CHR 0xA8], [CHR 0xE2, CHR 0x80, CHR 0xA9],
      [CHR 0xE2, CHR 0x80, CHR 0xAF],
      [CHR 0xE2, CHR 0x81, CHR 0x9F],
      [CHR 0xE3, CHR 0x80, CHR 0x80]]"

text \<open>The width in bytes of the first pattern that the string starts with, 0 if none.\<close>

fun matchWidth :: "string list \<Rightarrow> string \<Rightarrow> nat" where
  "matchWidth [] s = 0"
| "matchWidth (p # ps) s =
     (if p \<noteq> [] \<and> take (length p) s = p then length p else matchWidth ps s)"

function trimLeftRunes :: "string list \<Rightarrow> string \<Rightarrow> string" where
  "trimLeftRunes ps s =
     (case matchWidth ps s of
        0 \<Rightarrow> s
      | Suc k \<Rightarrow> trimLeftRunes ps (drop (Suc k) s))"
  by pat_completeness auto
termination
proof (relation "measure (\<lambda>(ps, s). length s)")
  show "wf (measure (\<lambda>(ps, s). length s))" by simp
next
  fix ps :: "string list" and s :: string and k :: nat
  assume m: "matchWidth ps s = Suc k"
  have le: "matchWidth qs s \<le> length s" for qs
  proof (induction qs)
    case Nil
    show ?case by simp
  next
    case (Cons p qs)
    have "take (length p) s = p \<Longrightarrow> length p \<le> length s"
      by (metis length_take min.cobounded1)
    with Cons show ?case by simp
  qed
  from le [of ps] m have "Suc k \<le> length s" by simp
  then show "((ps, drop (Suc k) s), (ps, s)) \<in> measure (\<lambda>(ps, s). length s)"
    by simp
qed

declare trimLeftRunes.simps [simp del]

definition TrimSpace :: "string \<Rightarrow> string" where
  "TrimSpace s =
     rev (trimLeftRunes (map rev spaceRunes) (rev (trimLeftRunes spaceRunes s)))"

subsection \<open>\<^verbatim>\<open>fmt.Sprintf\<close> with the verbs \<^verbatim>\<open>%d\<close> and \<^verbatim>\<open>%04d\<close>\<close>

definition digitChar :: "nat \<Rightarrow> char" where
  "digitChar d = char_of (48 + d)"

function natDigits :: "nat \<Rightarrow> string" where
  "natDigits n = (if n < 10 then [digitChar n] else natDigits (n div 10) @ [digitChar (n mod 10)])"
  by pat_completeness auto
termination
  by (relation "measure id") auto

declare natDigits.simps [simp del]

text \<open>\<^verbatim>\<open>%d\<close>: the decimal digits, after a minus sign for a negative number.\<close>

definition Sprintf_d :: "int \<Rightarrow> string" where
  "Sprintf_d i = (if i < 0 then CHR ''-'' # natDigits (nat (- i)) else natDigits (nat i))"

text \<open>
  \<^verbatim>\<open>%04d\<close>: width 4 with the zero flag. The width is a minimum: zeros are put before
  the digits (after the sign, which counts in the width) until the text is 4 characters
  long, and a longer number is printed whole.
\<close>

definition Sprintf_04d :: "int \<Rightarrow> string" where
  "Sprintf_04d i =
     (if i < 0
      then CHR ''-'' # replicate (3 - length (natDigits (nat (- i)))) CHR ''0'' @ natDigits (nat (- i))
      else replicate (4 - length (natDigits (nat i))) CHR ''0'' @ natDigits (nat i))"

section \<open>ProfileType\<close>

text \<open>\<^verbatim>\<open>type ProfileType int8\<close>: a signed 8-bit integer.\<close>

type_synonym ProfileType = "8 word"

definition UnknownProfile :: ProfileType where "UnknownProfile = 0"
definition CPUProfile :: ProfileType where "CPUProfile = 1"
definition HeapProfile :: ProfileType where "HeapProfile = 2"
definition BlockProfile :: ProfileType where "BlockProfile = 3"
definition MutexProfile :: ProfileType where "MutexProfile = 4"
definition GoroutineProfile :: ProfileType where "GoroutineProfile = 5"
definition OtherProfile :: ProfileType where "OtherProfile = 127"

text \<open>
  \<^verbatim>\<open>func (ptype *ProfileType) FromString(s string) error\<close> stores the decoded type
  through the receiver on every branch and returns \<^verbatim>\<open>nil\<close>. The model returns the
  value stored and the error returned (\<open>None\<close> is \<^verbatim>\<open>nil\<close>).
\<close>

definition FromString :: "string \<Rightarrow> ProfileType \<times> error option" where
  "FromString s0 =
     (let s = TrimSpace s0 in
      (if s = ''cpu'' then CPUProfile
       else if s = ''heap'' then HeapProfile
       else if s = ''block'' then BlockProfile
       else if s = ''mutex'' then MutexProfile
       else if s = ''goroutine'' then GoroutineProfile
       else if s = ''other'' then OtherProfile
       else UnknownProfile,
       None))"

definition String :: "ProfileType \<Rightarrow> string" where
  "String ptype =
     (if ptype = UnknownProfile then ''unknown''
      else if ptype = CPUProfile then ''cpu''
      else if ptype = HeapProfile then ''heap''
      else if ptype = BlockProfile then ''block''
      else if ptype = MutexProfile then ''mutex''
      else if ptype = GoroutineProfile then ''goroutine''
      else if ptype = OtherProfile then ''other''
      else Sprintf_d (sint ptype))"

text \<open>The strings of the \<^verbatim>\<open>case\<close> labels of \<^verbatim>\<open>FromString\<close>.\<close>

definition canonicalNames :: "string list" where
  "canonicalNames = [''cpu'', ''heap'', ''block'', ''mutex'', ''goroutine'', ''other'']"

section \<open>Identity primitives and records\<close>

text \<open>
  Modelled from the spec: \<^verbatim>\<open>Labels\<close> and \<^verbatim>\<open>Labels.Add\<close> are declared in a file
  that is not part of the sources at hand. The spec has
  "Labels: a set of key/value string pairs [...] insertion order is irrelevant" and
  "\<^verbatim>\<open>Add(other Labels) -> Labels\<close> returns the union of two label sets".
\<close>

type_synonym Label = "string \<times> string"
type_synonym Labels = "Label set"

definition Add :: "Labels \<Rightarrow> Labels \<Rightarrow> Labels" where
  "Add labels labels2 = labels \<union> labels2"

text \<open>
  Modelled from the spec: \<^verbatim>\<open>Token\<close>, \<^verbatim>\<open>TokenFromString\<close> and
  \<^verbatim>\<open>Token.String\<close> are not part of the sources at hand. The spec has "an opaque
  identifier [...] equality and string-round-trip are its only required operations": a
  token is kept as its string form.
\<close>

type_synonym Token = string

definition TokenFromString :: "string \<Rightarrow> Token" where
  "TokenFromString s = s"

definition TokenString :: "Token \<Rightarrow> string" where
  "TokenString t = t"

record Service =
  Name :: string
  BuildID :: string
  Token :: Token
  Labels :: Labels

text \<open>
  Modelled from the spec: \<^verbatim>\<open>NewService\<close> is not part of the sources at hand. The spec
  has "Derives a Token from (name, buildID, labels) and asks Storage to persist a new
  Service record"; how the token is derived is the parameter \<open>newToken\<close>.
\<close>

definition NewService :: "(string \<Rightarrow> string \<Rightarrow> Labels \<Rightarrow> Token) \<Rightarrow> string \<Rightarrow> string \<Rightarrow> Labels \<Rightarrow> Service" where
  "NewService newToken name buildID labels =
     \<lparr>Name = name, BuildID = buildID, Token = newToken name buildID labels, Labels = labels\<rparr>"

record Profile =
  P_Type :: ProfileType
  P_Service :: Service

text \<open>
  \<^verbatim>\<open>time.Time\<close>, as the instant it denotes: the nanoseconds since the zero time
  (January 1, year 1, 00:00:00 UTC), which is what \<^verbatim>\<open>IsZero\<close> and \<^verbatim>\<open>Before\<close>
  look at.
\<close>

type_synonym Time = int

definition IsZero :: "Time \<Rightarrow> bool" where
  "IsZero t = (t = 0)"

definition Before :: "Time \<Rightarrow> Time \<Rightarrow> bool" where
  "Before t u = (t < u)"

record GetServicesFilter =
  GSF_Service :: string

record GetProfileFilter =
  GPF_Service :: string
  GPF_Type :: ProfileType
  GPF_Labels :: Labels
  GPF_CreatedAtMin :: Time
  GPF_CreatedAtMax :: Time

section \<open>The heap of Service objects\<close>

text \<open>
  \<^verbatim>\<open>[]*Service\<close> is a list of pointers, and \<^verbatim>\<open>mergeServices\<close> writes through
  them. A pointer is \<open>None\<close> (\<^verbatim>\<open>nil\<close>) or the address of a Service object of the heap.
\<close>

type_synonym addr = nat
type_synonym Heap = "addr \<Rightarrow> Service"
type_synonym ServicePtr = "addr option"

section \<open>The Storage backend\<close>

text \<open>
  \<^verbatim>\<open>Storage\<close> is an interface: a backend is any five functions over a state of its
  own, \<open>'s\<close>. \<open>'p\<close> is the decoded profile of the codec,
  \<^verbatim>\<open>*profile.Profile\<close>. A Go result pair \<^verbatim>\<open>(value, error)\<close> is a sum, \<open>Inl\<close> the
  error; a lone \<^verbatim>\<open>error\<close> is an option, \<open>None\<close> being \<^verbatim>\<open>nil\<close>.
\<close>

record ('s, 'p) Storage =
  storage_CreateService :: "Service \<Rightarrow> 's \<Rightarrow> error option \<times> 's"
  storage_GetServices :: "GetServicesFilter \<Rightarrow> 's \<Rightarrow> (error + Heap \<times> ServicePtr list) \<times> 's"
  storage_CreateProfile :: "Profile \<Rightarrow> 'p \<Rightarrow> 's \<Rightarrow> error option \<times> 's"
  storage_GetProfiles :: "GetProfileFilter \<Rightarrow> 's \<Rightarrow> (error + 'p list) \<times> 's"
  storage_GetProfile :: "GetProfileFilter \<Rightarrow> 's \<Rightarrow> (error + 'p) \<times> 's"

text \<open>
  What the Repository does to the backend is observed in the world: the backend's state
  and the calls made to it so far, each with its arguments, in order.
\<close>

datatype 'p call =
    CallCreateService Service
  | CallGetServices GetServicesFilter
  | CallCreateProfile Profile 'p
  | CallGetProfiles GetProfileFilter
  | CallGetProfile GetProfileFilter

record ('s, 'p) World =
  backend :: 's
  calls :: "'p call list"

definition callStorage :: "'p call \<Rightarrow> ('s \<Rightarrow> 'r \<times> 's) \<Rightarrow> ('s, 'p) World \<Rightarrow> 'r \<times> ('s, 'p) World" where
  "callStorage c f w =
     (case f (backend w) of (r, s') \<Rightarrow> (r, \<lparr>backend = s', calls = calls w @ [c]\<rparr>))"

section \<open>Repository: services\<close>

record CreateServiceRequest =
  CSR_ID :: string
  CSR_Service :: string
  CSR_Labels :: Labels

text \<open>A request is a pointer: \<open>None\<close> is \<^verbatim>\<open>nil\<close>.\<close>

definition CreateServiceRequest_Validate :: "CreateServiceRequest option \<Rightarrow> error option" where
  "CreateServiceRequest_Validate r =
     (case r of
        None \<Rightarrow> Some NilRequest
      | Some req \<Rightarrow>
          if CSR_ID req = [] then Some IdEmpty
          else if CSR_Service req = [] then Some ServiceEmpty
          else None)"

definition CreateService ::
  "('s, 'p) Storage \<Rightarrow> (string \<Rightarrow> string \<Rightarrow> Labels \<Rightarrow> Token) \<Rightarrow> CreateServiceRequest option \<Rightarrow>
     ('s, 'p) World \<Rightarrow> (error + string) \<times> ('s, 'p) World" where
  "CreateService repo newToken r w =
     (case r of
        None \<Rightarrow> (Inl NilDereference, w)
      | Some req \<Rightarrow>
          let service = NewService newToken (CSR_Service req) (CSR_ID req) (CSR_Labels req) in
          (case callStorage (CallCreateService service) (storage_CreateService repo service) w of
             (Some err, w') \<Rightarrow> (Inl err, w')
           | (None, w') \<Rightarrow> (Inr (TokenString (Token service)), w')))"

record GetServicesRequest =
  GSR_Service :: string

text \<open>
  The first loop of \<^verbatim>\<open>mergeServices\<close>, over the heap and the map
  \<^verbatim>\<open>servicesSet\<close>. Reading \<^verbatim>\<open>s1.Name\<close> through a nil pointer panics.
\<close>

fun mergeLoop :: "ServicePtr list \<Rightarrow> Heap \<times> (string \<rightharpoonup> addr) \<Rightarrow> error + Heap \<times> (string \<rightharpoonup> addr)" where
  "mergeLoop [] st = Inr st"
| "mergeLoop (s1 # rest) (h, servicesSet) =
     (case s1 of
        None \<Rightarrow> Inl NilDereference
      | Some a1 \<Rightarrow>
          (case servicesSet (Name (h a1)) of
             None \<Rightarrow> mergeLoop rest (h, servicesSet(Name (h a1) \<mapsto> a1))
           | Some a2 \<Rightarrow>
               mergeLoop rest
                 (h(a2 := (h a2)\<lparr>Labels := Add (Labels (h a2)) (Labels (h a1))\<rparr>), servicesSet)))"

text \<open>
  The second loop ranges over \<^verbatim>\<open>servicesSet\<close>, a Go map: it visits every key once,
  in an order that is not specified. \<open>mergeServices h services res\<close> holds when \<open>res\<close> is
  a result the function can return on the list \<open>services\<close> in the heap \<open>h\<close>: the heap
  after the call and the list returned, or the panic.
\<close>

inductive mergeServices :: "Heap \<Rightarrow> ServicePtr list \<Rightarrow> error + Heap \<times> ServicePtr list \<Rightarrow> bool" where
  mergeServices_empty:
    "length services = 0 \<Longrightarrow> mergeServices h services (Inr (h, services))"
| mergeServices_panic:
    "length services \<noteq> 0 \<Longrightarrow> mergeLoop services (h, Map.empty) = Inl e \<Longrightarrow>
     mergeServices h services (Inl e)"
| mergeServices_range:
    "length services \<noteq> 0 \<Longrightarrow> mergeLoop services (h, Map.empty) = Inr (h', servicesSet) \<Longrightarrow>
     distinct keys \<Longrightarrow> set keys = dom servicesSet \<Longrightarrow>
     mergeServices h services (Inr (h', map servicesSet keys))"

inductive GetServices ::
  "('s, 'p) Storage \<Rightarrow> GetServicesRequest option \<Rightarrow> ('s, 'p) World \<Rightarrow>
     (error + Heap \<times> ServicePtr list) \<times> ('s, 'p) World \<Rightarrow> bool" where
  GetServices_nil:
    "GetServices repo None w (Inl NilDereference, w)"
| GetServices_err:
    "flt = \<lparr>GSF_Service = GSR_Service req\<rparr> \<Longrightarrow>
     callStorage (CallGetServices flt) (storage_GetServices repo flt) w = (Inl err, w') \<Longrightarrow>
     GetServices repo (Some req) w (Inl err, w')"
| GetServices_merge:
    "flt = \<lparr>GSF_Service = GSR_Service req\<rparr> \<Longrightarrow>
     callStorage (CallGetServices flt) (storage_GetServices repo flt) w = (Inr (h, services), w') \<Longrightarrow>
     mergeServices h services res \<Longrightarrow>
     GetServices repo (Some req) w (res, w')"

section \<open>Repository: profile ingestion\<close>

record CreateProfileRequest =
  CPR_ID :: string
  CPR_Token :: string
  CPR_Type :: ProfileType

definition CreateProfileRequest_Validate :: "CreateProfileRequest option \<Rightarrow> error option" where
  "CreateProfileRequest_Validate r =
     (case r of
        None \<Rightarrow> Some NilRequest
      | Some req \<Rightarrow>
          if CPR_ID req = [] then Some IdEmpty
          else if CPR_Token req = [] then Some TokenEmpty
          else if CPR_Type req = UnknownProfile then Some (UnknownType (String (CPR_Type req)))
          else None)"

text \<open>
  \<open>Parse\<close> is the codec's \<^verbatim>\<open>profile.Parse\<close>, a collaborator, applied to the bytes
  the reader \<open>r\<close> yields.
\<close>

definition CreateProfile ::
  "('s, 'p) Storage \<Rightarrow> (string \<Rightarrow> error + 'p) \<Rightarrow> CreateProfileRequest option \<Rightarrow> string \<Rightarrow>
     ('s, 'p) World \<Rightarrow> error option \<times> ('s, 'p) World" where
  "CreateProfile repo Parse r rd w =
     (case r of
        None \<Rightarrow> (Some NilDereference, w)
      | Some req \<Rightarrow>
          let prof =
                \<lparr>P_Type = CPR_Type req,
                 P_Service =
                   \<lparr>Name = [], BuildID = CPR_ID req, Token = TokenFromString (CPR_Token req),
                    Labels = {}\<rparr>\<rparr>
          in (case Parse rd of
                Inl err \<Rightarrow> (Some (Wrapped ''could not parse profile'' err), w)
              | Inr pp \<Rightarrow> callStorage (CallCreateProfile prof pp) (storage_CreateProfile repo prof pp) w))"

section \<open>Repository: query and export\<close>

record GetProfilesRequest =
  GPR_Service :: string
  GPR_Type :: ProfileType
  GPR_From :: Time
  GPR_To :: Time
  GPR_Labels :: Labels
  GPR_Limit :: int

definition GetProfilesRequest_Validate :: "GetProfilesRequest option \<Rightarrow> error option" where
  "GetProfilesRequest_Validate r =
     (case r of
        None \<Rightarrow> Some NilRequest
      | Some req \<Rightarrow>
          if GPR_Service req = [] then Some NoService
          else if GPR_Type req = UnknownProfile then Some (UnknownType (String (GPR_Type req)))
          else if IsZero (GPR_From req) \<or> IsZero (GPR_To req) then Some CreatedAtZero
          else if Before (GPR_To req) (GPR_From req) then Some CreatedAtMinAfterMax
          else None)"

text \<open>The filter that \<^verbatim>\<open>GetProfiles\<close> and \<^verbatim>\<open>GetProfile\<close> both build.\<close>

definition filterOf :: "GetProfilesRequest \<Rightarrow> GetProfileFilter" where
  "filterOf req =
     \<lparr>GPF_Service = GPR_Service req,
      GPF_Type = GPR_Type req,
      GPF_Labels = GPR_Labels req,
      GPF_CreatedAtMin = GPR_From req,
      GPF_CreatedAtMax = GPR_To req\<rparr>"

definition GetProfiles ::
  "('s, 'p) Storage \<Rightarrow> GetProfilesRequest option \<Rightarrow> ('s, 'p) World \<Rightarrow>
     (error + 'p list) \<times> ('s, 'p) World" where
  "GetProfiles repo r w =
     (case r of
        None \<Rightarrow> (Inl NilDereference, w)
      | Some req \<Rightarrow>
          callStorage (CallGetProfiles (filterOf req)) (storage_GetProfiles repo (filterOf req)) w)"

definition GetProfile ::
  "('s, 'p) Storage \<Rightarrow> GetProfilesRequest option \<Rightarrow> ('s, 'p) World \<Rightarrow>
     (error + 'p) \<times> ('s, 'p) World" where
  "GetProfile repo r w =
     (case r of
        None \<Rightarrow> (Inl NilDereference, w)
      | Some req \<Rightarrow>
          callStorage (CallGetProfile (filterOf req)) (storage_GetProfile repo (filterOf req)) w)"

text \<open>
  The state of the \<^verbatim>\<open>zip.Writer\<close> that \<^verbatim>\<open>zip.NewWriter(w)\<close> makes: the entries
  handed to it so far, each with its name and the bytes written to it, and whether
  \<^verbatim>\<open>Close\<close> has returned nil. This is not the content of the output stream \<open>w\<close>:
  the writer buffers its output, and what it was handed is on the stream for certain only
  once \<^verbatim>\<open>Close\<close> has succeeded, which writes the trailer (the central directory)
  and flushes the buffer. How much of the entries has reached the stream before that is
  not modelled.
\<close>

record ZipWriter =
  entries :: "(string \<times> string) list"
  closed :: bool

definition NewWriter :: ZipWriter where
  "NewWriter = \<lparr>entries = [], closed = False\<rparr>"

text \<open>
  The collaborators of the export: \<open>pp_Write pp\<close> is the codec's
  \<^verbatim>\<open>pp.Write(w)\<close>, the bytes that reached the entry and the error, if any;
  \<open>zw_Create zw name\<close> and \<open>zw_Close zw\<close> say whether \<^verbatim>\<open>zw.Create(name)\<close> and
  \<^verbatim>\<open>zw.Close()\<close> fail on the archive \<open>zw\<close>.
\<close>

record 'p Export =
  pp_Write :: "'p \<Rightarrow> string \<times> error option"
  zw_Create :: "ZipWriter \<Rightarrow> string \<Rightarrow> error option"
  zw_Close :: "ZipWriter \<Rightarrow> error option"

text \<open>
  \<^verbatim>\<open>fmt.Sprintf("%s-%s-%04d.prof", req.Service, req.Type, n+1)\<close>; \<^verbatim>\<open>%s\<close> prints
  a ProfileType with its \<^verbatim>\<open>String\<close> method.
\<close>

definition entryName :: "GetProfilesRequest \<Rightarrow> nat \<Rightarrow> string" where
  "entryName req n =
     GPR_Service req @ ''-'' @ String (GPR_Type req) @ ''-'' @ Sprintf_04d (int n + 1) @ ''.prof''"

text \<open>The loop of \<^verbatim>\<open>GetProfilesTo\<close> from the index \<open>n\<close> on.\<close>

fun writeEntries ::
  "'p Export \<Rightarrow> GetProfilesRequest \<Rightarrow> nat \<Rightarrow> 'p list \<Rightarrow> ZipWriter \<Rightarrow> error option \<times> ZipWriter" where
  "writeEntries ex req n [] zw = (None, zw)"
| "writeEntries ex req n (pp # pps) zw =
     (let name = entryName req n in
      case zw_Create ex zw name of
        Some err \<Rightarrow> (Some (Wrapped (''could not add file '' @ name @ '' to zip'') err), zw)
      | None \<Rightarrow>
          (case pp_Write ex pp of
             (bytes, Some err) \<Rightarrow> (Some err, zw\<lparr>entries := entries zw @ [(name, bytes)]\<rparr>)
           | (bytes, None) \<Rightarrow>
               writeEntries ex req (Suc n) pps (zw\<lparr>entries := entries zw @ [(name, bytes)]\<rparr>)))"

text \<open>
  \<^verbatim>\<open>GetProfilesTo\<close> returns its error; the model gives with it the world and the
  state in which the call leaves its zip writer (\<open>None\<close> when it made none). On the
  error returns the writer is neither closed nor flushed.
\<close>

definition GetProfilesTo ::
  "('s, 'p) Storage \<Rightarrow> 'p Export \<Rightarrow> GetProfilesRequest option \<Rightarrow> ('s, 'p) World \<Rightarrow>
     error option \<times> ('s, 'p) World \<times> ZipWriter option" where
  "GetProfilesTo repo ex r w =
     (case r of
        None \<Rightarrow> (Some NilDereference, w, None)
      | Some req \<Rightarrow>
          (case GetProfiles repo (Some req) w of
             (Inl err, w') \<Rightarrow> (Some err, w', None)
           | (Inr pps, w') \<Rightarrow>
               (case writeEntries ex req 0 pps NewWriter of
                  (Some err, zw) \<Rightarrow> (Some err, w', Some zw)
                | (None, zw) \<Rightarrow>
                    (case zw_Close ex zw of
                       Some err \<Rightarrow> (Some err, w', Some zw)
                     | None \<Rightarrow> (None, w', Some (zw\<lparr>closed := True\<rparr>))))))"

section \<open>Notions used to state the properties\<close>

text \<open>
  The number that a string of decimal digits denotes, and the archive entries of the
  first \<open>k\<close> profiles of a query result: the \<open>i\<close>-th (from 0) under the name
  \<open>entryName req i\<close>, holding the bytes the codec wrote for it.
\<close>

definition digitsValue :: "string \<Rightarrow> nat" where
  "digitsValue ds = foldl (\<lambda>a c. 10 * a + (of_char c - 48)) 0 ds"




text \<open>
  To state what the merge pass computes on a list of addresses \<open>as\<close> in a heap \<open>h\<close>:
  the first address of the list whose Service has the name \<open>n\<close>, the union of the label
  sets of all the Services of the list with that name, and the heap in which the first
  Service of every name has got that union as its labels and nothing else has changed.
\<close>

definition firstNamed :: "Heap \<Rightarrow> addr list \<Rightarrow> string \<rightharpoonup> addr" where
  "firstNamed h as n = find (\<lambda>b. Name (h b) = n) as"

definition labelsNamed :: "Heap \<Rightarrow> addr list \<Rightarrow> string \<Rightarrow> Labels" where
  "labelsNamed h as n = \<Union> (set (map (\<lambda>b. Labels (h b)) (filter (\<lambda>b. Name (h b) = n) as)))"

definition mergedHeap :: "Heap \<Rightarrow> addr list \<Rightarrow> Heap" where
  "mergedHeap h as a =
     (if firstNamed h as (Name (h a)) = Some a
      then (h a)\<lparr>Labels := labelsNamed h as (Name (h a))\<rparr>
      else h a)"

section \<open>A backend and collaborators to run the model on\<close>

text \<open>
  A backend that accepts every write and answers every query with the same services and
  profiles; its state counts the records written. A decoded profile is its bytes.
\<close>

definition fixedStorage :: "Heap \<times> ServicePtr list \<Rightarrow> string list \<Rightarrow> (nat, string) Storage" where
  "fixedStorage svcs pps =
     \<lparr>storage_CreateService = (\<lambda>service s. (None, Suc s)),
      storage_GetServices = (\<lambda>flt s. (Inr svcs, s)),
      storage_CreateProfile = (\<lambda>prof pp s. (None, Suc s)),
      storage_GetProfiles = (\<lambda>flt s. (Inr pps, s)),
      storage_GetProfile = (\<lambda>flt s. (case pps of [] \<Rightarrow> Inl (Opaque ''not found'') | pp # _ \<Rightarrow> Inr pp, s))\<rparr>"

definition world0 :: "(nat, string) World" where
  "world0 = \<lparr>backend = 0, calls = []\<rparr>"




text \<open>A codec that accepts the payloads that start with the gzip magic bytes.\<close>

definition magicParse :: "string \<Rightarrow> error + string" where
  "magicParse bytes =
     (if take 2 bytes = [CHR 0x1F, CHR 0x8B] then Inr bytes else Inl (Opaque ''unrecognized profile format''))"

text \<open>A heap of blank Service objects, and a request that passes validation.\<close>

definition heap0 :: Heap where
  "heap0 = (\<lambda>a. \<lparr>Name = [], BuildID = [], Token = [], Labels = {}\<rparr>)"

definition cpuRequest :: GetProfilesRequest where
  "cpuRequest =
     \<lparr>GPR_Service = ''svc'', GPR_Type = CPUProfile, GPR_From = 10, GPR_To = 20, GPR_Labels = {},
      GPR_Limit = 0\<rparr>"


text \<open>
  A heap with two registrations of the service svc and one of the service db.
\<close>

definition exampleHeap :: Heap where
  "exampleHeap =
     heap0
      (0 := \<lparr>Name = ''svc'', BuildID = ''build-1'', Token = ''t1'', Labels = {(''env'', ''prod'')}\<rparr>,
       1 := \<lparr>Name = ''svc'', BuildID = ''build-2'', Token = ''t2'', Labels = {(''region'', ''us'')}\<rparr>,
       2 := \<lparr>Name = ''db'', BuildID = ''build-9'', Token = ''t3'', Labels = {(''tier'', ''1'')}\<rparr>)"

section \<open>ProfileType: parsing and formatting\<close>

lemmas ProfileType_defs =
  UnknownProfile_def CPUProfile_def HeapProfile_def BlockProfile_def MutexProfile_def
  GoroutineProfile_def OtherProfile_def

lemma of_char_digitChar: "d < 10 \<Longrightarrow> of_char (digitChar d) = 48 + d"
  by (simp add: digitChar_def)

text \<open>The digits of \<open>natDigits n\<close> read back, most significant first, give \<open>n\<close>.\<close>

lemma natDigits_value:
  "foldl (\<lambda>a c. 10 * a + (of_char c - 48)) 0 (natDigits n) = n"
proof (induction n rule: natDigits.induct)
  case (1 n)
  show ?case
  proof (cases "n < 10")
    case True
    then show ?thesis by (subst natDigits.simps) (simp add: of_char_digitChar)
  next
    case False
    with 1 show ?thesis by (subst natDigits.simps) (simp add: of_char_digitChar)
  qed
qed

lemma canonicalNames_roundtrip:
  "\<forall>s \<in> set canonicalNames. String (fst (FromString s)) = s"
  by code_simp

lemma FromString_no_error: "snd (FromString s) = None"
  by (simp add: FromString_def Let_def)

text \<open>
  Claim C7. For every profile-type string \<open>s\<close> of the canonical table (cpu, heap, block,
  mutex, goroutine, other), formatting the type that parsing \<open>s\<close> stores gives \<open>s\<close>
  again: \<open>String (FromString s) = s\<close>.
\<close>

theorem String_FromString_canonical:
  "s \<in> set canonicalNames \<Longrightarrow> String (fst (FromString s)) = s"
  using canonicalNames_roundtrip by blast

theorem String_FromString_canonical_witness:
  "''goroutine'' \<in> set canonicalNames \<and> String (fst (FromString ''goroutine'')) = ''goroutine''"
proof -
  have h: "''goroutine'' \<in> set canonicalNames"
    by (simp add: canonicalNames_def)
  from String_FromString_canonical [OF h] h show ?thesis by simp
qed

text \<open>
  Claim C8, as stated: every string that is not in the canonical table parses to the
  unknown type. It fails: \<^verbatim>\<open>FromString\<close> trims the string first, so " cpu", which is
  not in the table, parses to the CPU type.
\<close>

theorem FromString_untrimmed_counterexample:
  "'' cpu'' \<notin> set canonicalNames \<and> fst (FromString '' cpu'') = CPUProfile
     \<and> CPUProfile \<noteq> UnknownProfile"
  by code_simp

text \<open>
  Claim C8, amended. Parsing never fails: the error returned is nil for every string. For
  every string whose form without the surrounding white space is not in the canonical
  table (the empty string is one), parsing stores the unknown type.
\<close>

theorem FromString_unknown_after_trim:
  "snd (FromString s) = None
     \<and> (TrimSpace s \<notin> set canonicalNames \<longrightarrow> fst (FromString s) = UnknownProfile)
     \<and> FromString [] = (UnknownProfile, None)"
proof -
  have "TrimSpace [] = []" by code_simp
  then have "FromString [] = (UnknownProfile, None)"
    by (simp add: FromString_def Let_def)
  then show ?thesis
    by (simp add: FromString_def canonicalNames_def Let_def)
qed

theorem FromString_unknown_after_trim_witness:
  "TrimSpace ''  bogus '' \<notin> set canonicalNames \<and> FromString ''  bogus '' = (UnknownProfile, None)"
proof -
  have h: "TrimSpace ''  bogus '' \<notin> set canonicalNames" by code_simp
  from FromString_unknown_after_trim [of "''  bogus ''"] h show ?thesis
    by (simp add: prod_eq_iff)
qed

text \<open>The digits that \<^verbatim>\<open>%d\<close> and \<^verbatim>\<open>%04d\<close> print: what they are, their number and their value.\<close>

lemma digitChar_digit: "d < 10 \<Longrightarrow> digitChar d \<in> set ''0123456789''"
proof -
  have "\<forall>d \<in> set [0..<10]. digitChar d \<in> set ''0123456789''"
    by code_simp
  then show "d < 10 \<Longrightarrow> digitChar d \<in> set ''0123456789''"
    by simp
qed

lemma natDigits_digits: "set (natDigits n) \<subseteq> set ''0123456789''"
proof (induction n rule: natDigits.induct)
  case (1 n)
  show ?case
  proof (cases "n < 10")
    case True
    with digitChar_digit [of n] show ?thesis
      by (subst natDigits.simps) simp
  next
    case False
    have "n mod 10 < 10" by simp
    from digitChar_digit [OF this] 1 False show ?thesis
      by (subst natDigits.simps) simp
  qed
qed

lemma natDigits_length_pos: "0 < length (natDigits n)"
  by (subst natDigits.simps) simp




lemma digitsValue_natDigits: "digitsValue (natDigits n) = n"
  by (simp add: digitsValue_def natDigits_value)

lemma digitChar_nonzero: "0 < d \<Longrightarrow> d < 10 \<Longrightarrow> digitChar d \<noteq> CHR ''0''"
proof -
  have "\<forall>d \<in> set [1..<10]. digitChar d \<noteq> CHR ''0''"
    by code_simp
  then show "0 < d \<Longrightarrow> d < 10 \<Longrightarrow> digitChar d \<noteq> CHR ''0''"
    by simp
qed

lemma natDigits_no_leading_zero: "0 < n \<Longrightarrow> hd (natDigits n) \<noteq> CHR ''0''"
proof (induction n rule: natDigits.induct)
  case (1 n)
  show ?case
  proof (cases "n < 10")
    case True
    with 1(2) digitChar_nonzero [of n] show ?thesis
      by (subst natDigits.simps) simp
  next
    case False
    then have p: "0 < n div 10" by simp
    from natDigits_length_pos [of "n div 10"] have ne: "natDigits (n div 10) \<noteq> []" by simp
    from 1(1) [OF False p] False ne show ?thesis
      by (subst natDigits.simps) simp
  qed
qed

lemma Sprintf_d_decimal:
  "i \<noteq> 0 \<Longrightarrow>
   \<exists>ds. Sprintf_d i = (if i < 0 then CHR ''-'' # ds else ds)
      \<and> ds \<noteq> [] \<and> set ds \<subseteq> set ''0123456789'' \<and> hd ds \<noteq> CHR ''0''
      \<and> int (digitsValue ds) = \<bar>i\<bar>"
proof -
  assume nz: "i \<noteq> 0"
  let ?ds = "natDigits (nat \<bar>i\<bar>)"
  from nz have p: "0 < nat \<bar>i\<bar>" by simp
  have 1: "Sprintf_d i = (if i < 0 then CHR ''-'' # ?ds else ?ds)"
    by (simp add: Sprintf_d_def)
  have 2: "?ds \<noteq> []" using natDigits_length_pos [of "nat \<bar>i\<bar>"] by simp
  have 3: "set ?ds \<subseteq> set ''0123456789''" by (rule natDigits_digits)
  have 4: "hd ?ds \<noteq> CHR ''0''" by (rule natDigits_no_leading_zero [OF p])
  have 5: "int (digitsValue ?ds) = \<bar>i\<bar>" by (simp add: digitsValue_natDigits)
  from 1 2 3 4 5 show ?thesis by blast
qed

text \<open>
  Claim C9. For every ProfileType value outside the canonical table (not unknown = 0,
  cpu = 1, heap = 2, block = 3, mutex = 4, goroutine = 5 or other = 127), \<open>String\<close>
  does not fail and returns the decimal text of the raw signed 8-bit value: what
  \<^verbatim>\<open>%d\<close> prints for it, which is a minus sign when the value is negative, followed by
  decimal digits without a leading zero whose value is the absolute value.
\<close>

theorem String_fallback_decimal:
  "ptype \<notin> {UnknownProfile, CPUProfile, HeapProfile, BlockProfile, MutexProfile,
      GoroutineProfile, OtherProfile} \<Longrightarrow>
   String ptype = Sprintf_d (sint ptype)
   \<and> (\<exists>ds. String ptype = (if sint ptype < 0 then CHR ''-'' # ds else ds)
         \<and> ds \<noteq> [] \<and> set ds \<subseteq> set ''0123456789'' \<and> hd ds \<noteq> CHR ''0''
         \<and> int (digitsValue ds) = \<bar>sint ptype\<bar>)"
proof -
  assume out: "ptype \<notin> {UnknownProfile, CPUProfile, HeapProfile, BlockProfile, MutexProfile,
      GoroutineProfile, OtherProfile}"
  then have s: "String ptype = Sprintf_d (sint ptype)"
    by (simp add: String_def)
  from out have "ptype \<noteq> 0" by (simp add: UnknownProfile_def)
  then have "sint ptype \<noteq> 0" by (simp add: signed_eq_0_iff)
  from Sprintf_d_decimal [OF this] s show ?thesis by simp
qed

theorem String_fallback_decimal_witness:
  "(9 :: ProfileType) \<notin> {UnknownProfile, CPUProfile, HeapProfile, BlockProfile, MutexProfile,
      GoroutineProfile, OtherProfile}
   \<and> String 9 = ''9'' \<and> String (- 3) = ''-3'' \<and> String 128 = ''-128''"
proof -
  have h9: "(9 :: ProfileType) \<notin> {UnknownProfile, CPUProfile, HeapProfile, BlockProfile,
      MutexProfile, GoroutineProfile, OtherProfile}"
    by (simp add: ProfileType_defs)
  have hm: "(- 3 :: ProfileType) \<notin> {UnknownProfile, CPUProfile, HeapProfile, BlockProfile,
      MutexProfile, GoroutineProfile, OtherProfile}"
    by (simp add: ProfileType_defs)
  have hn: "(128 :: ProfileType) \<notin> {UnknownProfile, CPUProfile, HeapProfile, BlockProfile,
      MutexProfile, GoroutineProfile, OtherProfile}"
    by (simp add: ProfileType_defs)
  have d9: "Sprintf_d (sint (9 :: ProfileType)) = ''9''" by code_simp
  have dm: "Sprintf_d (sint (- 3 :: ProfileType)) = ''-3''" by code_simp
  have dn: "Sprintf_d (sint (128 :: ProfileType)) = ''-128''" by code_simp
  from String_fallback_decimal [OF h9] String_fallback_decimal [OF hm]
    String_fallback_decimal [OF hn] h9 d9 dm dn
  show ?thesis by simp
qed

section \<open>Validation and the backend calls\<close>

lemma calls_callStorage: "calls (snd (callStorage c f w)) = calls w @ [c]"
  by (simp add: callStorage_def split: prod.splits)

lemma GetProfilesRequest_Validate_None_iff:
  "GetProfilesRequest_Validate (Some req) = None \<longleftrightarrow>
     GPR_Service req \<noteq> [] \<and> GPR_Type req \<noteq> UnknownProfile \<and> \<not> IsZero (GPR_From req)
       \<and> \<not> IsZero (GPR_To req) \<and> \<not> Before (GPR_To req) (GPR_From req)"
  by (simp add: GetProfilesRequest_Validate_def)

lemma CreateProfileRequest_Validate_None_iff:
  "CreateProfileRequest_Validate (Some req) = None \<longleftrightarrow>
     CPR_ID req \<noteq> [] \<and> CPR_Token req \<noteq> [] \<and> CPR_Type req \<noteq> UnknownProfile"
  by (simp add: CreateProfileRequest_Validate_def)

lemma CreateServiceRequest_Validate_None_iff:
  "CreateServiceRequest_Validate (Some req) = None \<longleftrightarrow> CSR_ID req \<noteq> [] \<and> CSR_Service req \<noteq> []"
  by (simp add: CreateServiceRequest_Validate_def)

lemma CreateService_calls:
  "calls (snd (CreateService repo newToken (Some req) w))
     = calls w @ [CallCreateService (NewService newToken (CSR_Service req) (CSR_ID req) (CSR_Labels req))]"
proof -
  define service where "service = NewService newToken (CSR_Service req) (CSR_ID req) (CSR_Labels req)"
  obtain e w' where c: "callStorage (CallCreateService service) (storage_CreateService repo service) w = (e, w')"
    by (cases "callStorage (CallCreateService service) (storage_CreateService repo service) w")
  from calls_callStorage [of "CallCreateService service" "storage_CreateService repo service" w] c
  have w': "calls w' = calls w @ [CallCreateService service]"
    by simp
  have "calls (snd (CreateService repo newToken (Some req) w)) = calls w'"
    by (cases e) (simp_all add: CreateService_def Let_def c service_def [symmetric])
  with w' show ?thesis
    by (simp add: service_def)
qed

text \<open>
  Claim C3, as stated: a GetProfiles or GetProfile request with an empty service name, the
  unknown type, a zero time or from after to is rejected as a validation failure before
  any Storage call. It fails for the Repository's operations: they never call
  \<^verbatim>\<open>Validate\<close>. The request below has all four defects; \<^verbatim>\<open>Validate\<close> rejects it, and
  \<^verbatim>\<open>GetProfiles\<close> hands its filter to the backend and returns the backend's profiles.
\<close>

theorem GetProfiles_unvalidated_counterexample:
  "GetProfilesRequest_Validate
     (Some \<lparr>GPR_Service = [], GPR_Type = UnknownProfile, GPR_From = 0, GPR_To = 0,
        GPR_Labels = {}, GPR_Limit = 0\<rparr>)
     = Some NoService
   \<and> GetProfiles (fixedStorage (heap0, []) [''p1''])
       (Some \<lparr>GPR_Service = [], GPR_Type = UnknownProfile, GPR_From = 0, GPR_To = 0,
          GPR_Labels = {}, GPR_Limit = 0\<rparr>)
       world0
     = (Inr [''p1''],
        \<lparr>backend = 0,
         calls = [CallGetProfiles \<lparr>GPF_Service = [], GPF_Type = UnknownProfile, GPF_Labels = {},
                    GPF_CreatedAtMin = 0, GPF_CreatedAtMax = 0\<rparr>]\<rparr>)"
  by (simp add: GetProfilesRequest_Validate_def GetProfiles_def fixedStorage_def world0_def
      callStorage_def filterOf_def)

text \<open>
  Claim C3, amended. \<^verbatim>\<open>GetProfilesRequest.Validate\<close> returns an error for every request
  with an empty service name, or the unknown type, or a zero from or to, or from after to
  (each condition is sufficient alone), and for the nil request; it makes no backend call.
  \<^verbatim>\<open>Repository.GetProfiles\<close> and \<^verbatim>\<open>Repository.GetProfile\<close> do not validate: for every
  request they call the backend once, with the filter built from the request. The
  rejection comes before the backend call only where the caller runs \<^verbatim>\<open>Validate\<close>
  first.
\<close>

theorem GetProfilesRequest_Validate_rejects:
  "(GPR_Service req = [] \<or> GPR_Type req = UnknownProfile \<or> IsZero (GPR_From req)
      \<or> IsZero (GPR_To req) \<or> GPR_To req < GPR_From req
      \<longrightarrow> GetProfilesRequest_Validate (Some req) \<noteq> None)
   \<and> GetProfilesRequest_Validate None = Some NilRequest
   \<and> calls (snd (GetProfiles repo (Some req) w)) = calls w @ [CallGetProfiles (filterOf req)]
   \<and> calls (snd (GetProfile repo (Some req) w)) = calls w @ [CallGetProfile (filterOf req)]"
  by (simp add: GetProfilesRequest_Validate_def GetProfiles_def GetProfile_def calls_callStorage
      Before_def)

theorem GetProfilesRequest_Validate_rejects_witness:
  "GetProfilesRequest_Validate (Some (cpuRequest\<lparr>GPR_From := 30\<rparr>)) = Some CreatedAtMinAfterMax
   \<and> GetProfilesRequest_Validate (Some (cpuRequest\<lparr>GPR_To := 0\<rparr>)) = Some CreatedAtZero
   \<and> GetProfilesRequest_Validate (Some (cpuRequest\<lparr>GPR_Type := UnknownProfile\<rparr>)) = Some (UnknownType ''unknown'')
   \<and> GetProfilesRequest_Validate (Some (cpuRequest\<lparr>GPR_Service := []\<rparr>)) = Some NoService
   \<and> GetProfilesRequest_Validate (Some cpuRequest) = None
   \<and> calls (snd (GetProfiles (fixedStorage (heap0, []) []) (Some (cpuRequest\<lparr>GPR_From := 30\<rparr>)) world0))
       = [CallGetProfiles (filterOf (cpuRequest\<lparr>GPR_From := 30\<rparr>))]"
  using GetProfilesRequest_Validate_rejects
    [of "cpuRequest\<lparr>GPR_From := 30\<rparr>" "fixedStorage (heap0, []) []" world0]
  by (simp add: GetProfilesRequest_Validate_def cpuRequest_def ProfileType_defs IsZero_def
      Before_def String_def world0_def)

text \<open>
  Claim C4, as stated: a CreateProfile request with an empty ID, an empty token or the
  unknown type is rejected before the payload is decoded and before any Storage call. It
  fails for \<^verbatim>\<open>Repository.CreateProfile\<close>, which never calls \<^verbatim>\<open>Validate\<close>: with the
  request below, which has all three defects, and a payload the codec accepts, it calls
  the backend's \<^verbatim>\<open>CreateProfile\<close> and returns nil.
\<close>

theorem CreateProfile_unvalidated_counterexample:
  "CreateProfileRequest_Validate (Some \<lparr>CPR_ID = [], CPR_Token = [], CPR_Type = UnknownProfile\<rparr>)
     = Some IdEmpty
   \<and> CreateProfile (fixedStorage (heap0, []) []) magicParse
        (Some \<lparr>CPR_ID = [], CPR_Token = [], CPR_Type = UnknownProfile\<rparr>)
        [CHR 0x1F, CHR 0x8B, CHR ''x''] world0
      = (None,
         \<lparr>backend = 1,
          calls = [CallCreateProfile
             \<lparr>P_Type = UnknownProfile,
              P_Service = \<lparr>Name = [], BuildID = [], Token = [], Labels = {}\<rparr>\<rparr>
             [CHR 0x1F, CHR 0x8B, CHR ''x'']]\<rparr>)"
  by (simp add: CreateProfileRequest_Validate_def CreateProfile_def fixedStorage_def world0_def
      callStorage_def magicParse_def TokenFromString_def)

text \<open>
  Claim C4, amended. \<^verbatim>\<open>CreateProfileRequest.Validate\<close> returns an error for every
  request with an empty ID, or an empty token, or the unknown type, and for the nil
  request; it decodes nothing and makes no backend call. \<^verbatim>\<open>Repository.CreateProfile\<close>
  does not validate: for every request, whenever the payload parses, it calls the
  backend once with the profile record built from the request. The rejection comes
  before the decoding and the backend call only where the caller runs \<^verbatim>\<open>Validate\<close>
  first.
\<close>

theorem CreateProfileRequest_Validate_rejects:
  "(CPR_ID req = [] \<or> CPR_Token req = [] \<or> CPR_Type req = UnknownProfile
      \<longrightarrow> CreateProfileRequest_Validate (Some req) \<noteq> None)
   \<and> CreateProfileRequest_Validate None = Some NilRequest
   \<and> (Parse rd = Inr pp \<longrightarrow>
        calls (snd (CreateProfile repo Parse (Some req) rd w))
          = calls w @ [CallCreateProfile
               \<lparr>P_Type = CPR_Type req,
                P_Service = \<lparr>Name = [], BuildID = CPR_ID req,
                   Token = TokenFromString (CPR_Token req), Labels = {}\<rparr>\<rparr>
               pp])"
  by (simp add: CreateProfileRequest_Validate_def CreateProfile_def Let_def calls_callStorage)

theorem CreateProfileRequest_Validate_rejects_witness:
  "CreateProfileRequest_Validate (Some \<lparr>CPR_ID = ''build-1'', CPR_Token = [], CPR_Type = CPUProfile\<rparr>)
     = Some TokenEmpty
   \<and> CreateProfileRequest_Validate (Some \<lparr>CPR_ID = ''build-1'', CPR_Token = ''t'', CPR_Type = CPUProfile\<rparr>)
     = None
   \<and> magicParse [CHR 0x1F, CHR 0x8B] = Inr [CHR 0x1F, CHR 0x8B]
   \<and> calls (snd (CreateProfile (fixedStorage (heap0, []) []) magicParse
        (Some \<lparr>CPR_ID = ''build-1'', CPR_Token = [], CPR_Type = CPUProfile\<rparr>)
        [CHR 0x1F, CHR 0x8B] world0))
      = [CallCreateProfile
           \<lparr>P_Type = CPUProfile,
            P_Service = \<lparr>Name = [], BuildID = ''build-1'', Token = [], Labels = {}\<rparr>\<rparr>
           [CHR 0x1F, CHR 0x8B]]"
proof -
  have h: "magicParse [CHR 0x1F, CHR 0x8B] = Inr [CHR 0x1F, CHR 0x8B]"
    by (simp add: magicParse_def)
  from CreateProfileRequest_Validate_rejects
    [of "\<lparr>CPR_ID = ''build-1'', CPR_Token = [], CPR_Type = CPUProfile\<rparr>" magicParse
      "[CHR 0x1F, CHR 0x8B]" "[CHR 0x1F, CHR 0x8B]" "fixedStorage (heap0, []) []" world0] h
  show ?thesis
    by (simp add: CreateProfileRequest_Validate_def ProfileType_defs world0_def TokenFromString_def)
qed

text \<open>
  Claim C5, as stated: a CreateService request with an empty ID or an empty service name
  is rejected before any Storage call, and nothing is persisted. It fails for
  \<^verbatim>\<open>Repository.CreateService\<close>, which never calls \<^verbatim>\<open>Validate\<close>: with both fields
  empty it hands the new Service to the backend, which stores it, and returns the token.
\<close>

theorem CreateService_unvalidated_counterexample:
  "CreateServiceRequest_Validate (Some \<lparr>CSR_ID = [], CSR_Service = [], CSR_Labels = {}\<rparr>)
     = Some IdEmpty
   \<and> CreateService (fixedStorage (heap0, []) []) (\<lambda>name buildID labels. ''token-1'')
        (Some \<lparr>CSR_ID = [], CSR_Service = [], CSR_Labels = {}\<rparr>) world0
      = (Inr ''token-1'',
         \<lparr>backend = 1,
          calls = [CallCreateService \<lparr>Name = [], BuildID = [], Token = ''token-1'', Labels = {}\<rparr>]\<rparr>)"
  by (simp add: CreateServiceRequest_Validate_def CreateService_def fixedStorage_def world0_def
      callStorage_def NewService_def TokenString_def)

text \<open>
  Claim C5, amended. \<^verbatim>\<open>CreateServiceRequest.Validate\<close> returns an error for every
  request with an empty ID or an empty service name, and for the nil request; it makes no
  backend call. \<^verbatim>\<open>Repository.CreateService\<close> does not validate: for every request it
  calls the backend once with the Service made from the request, and what is persisted
  is then up to the backend. The rejection comes before the backend call only where the
  caller runs \<^verbatim>\<open>Validate\<close> first.
\<close>

theorem CreateServiceRequest_Validate_rejects:
  "(CSR_ID req = [] \<or> CSR_Service req = [] \<longrightarrow> CreateServiceRequest_Validate (Some req) \<noteq> None)
   \<and> CreateServiceRequest_Validate None = Some NilRequest
   \<and> calls (snd (CreateService repo newToken (Some req) w))
        = calls w @ [CallCreateService (NewService newToken (CSR_Service req) (CSR_ID req) (CSR_Labels req))]"
  by (simp add: CreateServiceRequest_Validate_def CreateService_calls)

theorem CreateServiceRequest_Validate_rejects_witness:
  "CreateServiceRequest_Validate (Some \<lparr>CSR_ID = ''build-1'', CSR_Service = [], CSR_Labels = {}\<rparr>)
     = Some ServiceEmpty
   \<and> CreateServiceRequest_Validate (Some \<lparr>CSR_ID = ''build-1'', CSR_Service = ''svc'', CSR_Labels = {}\<rparr>)
     = None
   \<and> calls (snd (CreateService (fixedStorage (heap0, []) []) (\<lambda>name buildID labels. ''token-1'')
        (Some \<lparr>CSR_ID = ''build-1'', CSR_Service = [], CSR_Labels = {}\<rparr>) world0))
      = [CallCreateService \<lparr>Name = [], BuildID = ''build-1'', Token = ''token-1'', Labels = {}\<rparr>]"
  using CreateServiceRequest_Validate_rejects
    [of "\<lparr>CSR_ID = ''build-1'', CSR_Service = [], CSR_Labels = {}\<rparr>"
      "fixedStorage (heap0, []) []" "\<lambda>name buildID labels. ''token-1''" world0]
  by (simp add: CreateServiceRequest_Validate_def world0_def NewService_def)

text \<open>
  Claim C6. For every CreateProfile call whose byte stream the codec fails to parse, the
  operation returns the codec's error wrapped as "could not parse profile", and no
  Storage call is made: the world is as before. The backend is reached only after a
  successful parse.
\<close>

theorem CreateProfile_decode_error:
  "(Parse rd = Inl err \<longrightarrow>
      CreateProfile repo Parse (Some req) rd w = (Some (Wrapped ''could not parse profile'' err), w))
   \<and> (snd (CreateProfile repo Parse r rd w) \<noteq> w \<longrightarrow> (\<exists>pp. Parse rd = Inr pp))"
  by (auto simp add: CreateProfile_def Let_def split: option.splits sum.splits)

theorem CreateProfile_decode_error_witness:
  "magicParse ''not a profile'' = Inl (Opaque ''unrecognized profile format'')
   \<and> CreateProfile (fixedStorage (heap0, []) []) magicParse
        (Some \<lparr>CPR_ID = ''build-1'', CPR_Token = ''t'', CPR_Type = CPUProfile\<rparr>) ''not a profile'' world0
      = (Some (Wrapped ''could not parse profile'' (Opaque ''unrecognized profile format'')), world0)"
proof -
  have h: "magicParse ''not a profile'' = Inl (Opaque ''unrecognized profile format'')"
    by (simp add: magicParse_def)
  from CreateProfile_decode_error
    [of magicParse "''not a profile''" "Opaque ''unrecognized profile format''"
      "fixedStorage (heap0, []) []" "\<lparr>CPR_ID = ''build-1'', CPR_Token = ''t'', CPR_Type = CPUProfile\<rparr>"
      world0] h
  show ?thesis by simp
qed

section \<open>The Limit field\<close>

lemma entryName_Limit: "entryName (req\<lparr>GPR_Limit := l\<rparr>) n = entryName req n"
  by (simp add: entryName_def)

lemma writeEntries_Limit:
  "writeEntries ex (req\<lparr>GPR_Limit := l\<rparr>) n pps zw = writeEntries ex req n pps zw"
proof (induction pps arbitrary: n zw)
  case Nil
  show ?case by simp
next
  case (Cons pp pps)
  show ?case
    by (simp add: entryName_Limit Let_def Cons.IH split: option.splits prod.splits)
qed

lemma GetProfilesTo_Limit:
  "GetProfilesTo repo ex (Some (req\<lparr>GPR_Limit := l\<rparr>)) w = GetProfilesTo repo ex (Some req) w"
proof -
  have f: "filterOf (req\<lparr>GPR_Limit := l\<rparr>) = filterOf req"
    by (simp add: filterOf_def)
  have g: "GetProfiles repo (Some (req\<lparr>GPR_Limit := l\<rparr>)) w = GetProfiles repo (Some req) w"
    by (simp add: GetProfiles_def f)
  show ?thesis
    by (simp add: GetProfilesTo_def g writeEntries_Limit split: prod.splits sum.splits)
qed

text \<open>
  Claim C10. For every pair of GetProfiles (or GetProfile) requests that differ only in
  the Limit field, the filter handed to the Storage backend is the same, and so are the
  result and the world after the call: Limit is never copied into the filter and has no
  effect on what the Repository does, the export included.
\<close>

theorem Limit_ignored:
  "req' = req\<lparr>GPR_Limit := l\<rparr> \<Longrightarrow>
   filterOf req' = filterOf req
   \<and> GetProfiles repo (Some req') w = GetProfiles repo (Some req) w
   \<and> GetProfile repo (Some req') w = GetProfile repo (Some req) w
   \<and> GetProfilesTo repo ex (Some req') w = GetProfilesTo repo ex (Some req) w
   \<and> calls (snd (GetProfiles repo (Some req') w)) = calls w @ [CallGetProfiles (filterOf req)]
   \<and> calls (snd (GetProfile repo (Some req') w)) = calls w @ [CallGetProfile (filterOf req)]"
proof -
  assume r: "req' = req\<lparr>GPR_Limit := l\<rparr>"
  have f: "filterOf req' = filterOf req"
    by (simp add: r filterOf_def)
  show ?thesis
    by (simp add: f GetProfiles_def GetProfile_def calls_callStorage)
      (simp add: r GetProfilesTo_Limit)
qed

theorem Limit_ignored_witness:
  "cpuRequest\<lparr>GPR_Limit := 1\<rparr> \<noteq> cpuRequest
   \<and> GetProfiles (fixedStorage (heap0, []) [''p1'', ''p2'']) (Some (cpuRequest\<lparr>GPR_Limit := 1\<rparr>)) world0
     = GetProfiles (fixedStorage (heap0, []) [''p1'', ''p2'']) (Some cpuRequest) world0
   \<and> fst (GetProfiles (fixedStorage (heap0, []) [''p1'', ''p2'']) (Some (cpuRequest\<lparr>GPR_Limit := 1\<rparr>)) world0)
     = Inr [''p1'', ''p2'']"
proof -
  have d: "cpuRequest\<lparr>GPR_Limit := 1\<rparr> \<noteq> cpuRequest"
    by (simp add: cpuRequest_def)
  have v: "fst (GetProfiles (fixedStorage (heap0, []) [''p1'', ''p2'']) (Some cpuRequest) world0)
      = Inr [''p1'', ''p2'']"
    by (simp add: GetProfiles_def fixedStorage_def callStorage_def)
  from Limit_ignored [where req = cpuRequest and l = 1 and w = world0
      and repo = "fixedStorage (heap0, []) [''p1'', ''p2'']", OF refl] d v
  show ?thesis by simp
qed

section \<open>The export archive\<close>





lemma GetProfilesTo_query_error:
  "GetProfiles repo (Some req) w = (Inl err, w') \<Longrightarrow>
   GetProfilesTo repo ex (Some req) w = (Some err, w', None)"
  by (simp add: GetProfilesTo_def)



















section \<open>The merge pass of GetServices\<close>

text \<open>How the three notions change when one more address is put at the end of the list.\<close>

lemma find_snoc:
  "find P (xs @ [x]) = (case find P xs of None \<Rightarrow> if P x then Some x else None | Some y \<Rightarrow> Some y)"
  by (induction xs) simp_all

lemma firstNamed_snoc_Some: "firstNamed h as n = Some r \<Longrightarrow> firstNamed h (as @ [a]) n = Some r"
  by (simp add: firstNamed_def find_snoc)

lemma firstNamed_snoc_None:
  "firstNamed h as n = None \<Longrightarrow> firstNamed h (as @ [a]) n = (if Name (h a) = n then Some a else None)"
  by (simp add: firstNamed_def find_snoc)

lemma firstNamed_snoc_other: "Name (h a) \<noteq> n \<Longrightarrow> firstNamed h (as @ [a]) n = firstNamed h as n"
  by (simp add: firstNamed_def find_snoc split: option.splits)

lemma labelsNamed_snoc_same:
  "labelsNamed h (as @ [a]) (Name (h a)) = labelsNamed h as (Name (h a)) \<union> Labels (h a)"
  by (simp add: labelsNamed_def Un_commute)

lemma labelsNamed_snoc_other: "Name (h a) \<noteq> n \<Longrightarrow> labelsNamed h (as @ [a]) n = labelsNamed h as n"
  by (simp add: labelsNamed_def)

lemma firstNamed_Some: "firstNamed h as n = Some b \<Longrightarrow> Name (h b) = n \<and> b \<in> set as"
  by (auto simp add: firstNamed_def find_Some_iff)

lemma firstNamed_None_iff: "firstNamed h as n = None \<longleftrightarrow> n \<notin> (\<lambda>b. Name (h b)) ` set as"
  by (auto simp add: firstNamed_def find_None_iff)

lemma labelsNamed_None: "firstNamed h as n = None \<Longrightarrow> labelsNamed h as n = {}"
  by (auto simp add: firstNamed_None_iff labelsNamed_def)

lemma labelsNamed_mem: "b \<in> set as \<Longrightarrow> Labels (h b) \<subseteq> labelsNamed h as (Name (h b))"
  by (auto simp add: labelsNamed_def)

lemma Name_mergedHeap: "Name (mergedHeap h as a) = Name (h a)"
  by (simp add: mergedHeap_def)

lemma mergedHeap_Nil: "mergedHeap h [] = h"
  by (rule ext) (simp add: mergedHeap_def firstNamed_def)

lemma firstNamed_Nil: "firstNamed h [] = Map.empty"
  by (rule ext) (simp add: firstNamed_def)

lemma mergedHeap_other:
  assumes "Name (h b) \<noteq> Name (h a)"
  shows "mergedHeap h (as @ [a]) b = mergedHeap h as b"
proof -
  from assms have n: "Name (h a) \<noteq> Name (h b)" by simp
  show ?thesis
    unfolding mergedHeap_def firstNamed_snoc_other [of h a "Name (h b)" as, OF n]
      labelsNamed_snoc_other [of h a "Name (h b)" as, OF n] ..
qed

text \<open>
  One round of the loop on the address \<open>a\<close>, after the addresses \<open>as\<close>: when no
  Service of that name was seen before, and when one was.
\<close>

lemma step_new:
  assumes n: "firstNamed h as (Name (h a)) = None"
  shows "mergedHeap h (as @ [a]) = mergedHeap h as"
    and "firstNamed h (as @ [a]) = (firstNamed h as)(Name (h a) \<mapsto> a)"
proof -
  show "firstNamed h (as @ [a]) = (firstNamed h as)(Name (h a) \<mapsto> a)"
  proof (rule ext)
    fix m
    show "firstNamed h (as @ [a]) m = ((firstNamed h as)(Name (h a) \<mapsto> a)) m"
    proof (cases "Name (h a) = m")
      case True
      with n firstNamed_snoc_None [of h as m a] show ?thesis by simp
    next
      case False
      with firstNamed_snoc_other [of h a m as] show ?thesis by simp
    qed
  qed
  show "mergedHeap h (as @ [a]) = mergedHeap h as"
  proof (rule ext)
    fix b
    show "mergedHeap h (as @ [a]) b = mergedHeap h as b"
    proof (cases "Name (h b) = Name (h a)")
      case True
      have f: "firstNamed h (as @ [a]) (Name (h a)) = Some a"
        using firstNamed_snoc_None [OF n, of a] by simp
      have l: "labelsNamed h (as @ [a]) (Name (h a)) = Labels (h a)"
        by (simp add: labelsNamed_snoc_same labelsNamed_None [OF n])
      show ?thesis
      proof (cases "b = a")
        case True
        then show ?thesis by (simp add: mergedHeap_def f l n)
      next
        case False
        with True show ?thesis by (simp add: mergedHeap_def f n)
      qed
    next
      case False
      with mergedHeap_other [of h b a as] show ?thesis by simp
    qed
  qed
qed

lemma step_old:
  assumes r: "firstNamed h as (Name (h a)) = Some r"
  shows "mergedHeap h (as @ [a]) =
      (mergedHeap h as)(r := (mergedHeap h as r)\<lparr>Labels :=
          Add (Labels (mergedHeap h as r)) (Labels (mergedHeap h as a))\<rparr>)"
    and "firstNamed h (as @ [a]) = firstNamed h as"
proof -
  from firstNamed_Some [OF r] have nr: "Name (h r) = Name (h a)" and rin: "r \<in> set as"
    by simp_all
  have f': "firstNamed h (as @ [a]) (Name (h a)) = Some r"
    by (rule firstNamed_snoc_Some [OF r])
  show f: "firstNamed h (as @ [a]) = firstNamed h as"
  proof (rule ext)
    fix m
    show "firstNamed h (as @ [a]) m = firstNamed h as m"
    proof (cases "Name (h a) = m")
      case True
      with r f' show ?thesis by simp
    next
      case False
      with firstNamed_snoc_other [of h a m as] show ?thesis by simp
    qed
  qed
  have mr: "mergedHeap h as r = (h r)\<lparr>Labels := labelsNamed h as (Name (h a))\<rparr>"
    using r nr by (simp add: mergedHeap_def)
  have la: "labelsNamed h as (Name (h a)) \<union> Labels (mergedHeap h as a)
      = labelsNamed h as (Name (h a)) \<union> Labels (h a)"
  proof (cases "a = r")
    case True
    from labelsNamed_mem [OF rin, of h] nr have "Labels (h r) \<subseteq> labelsNamed h as (Name (h a))"
      by simp
    with True mr show ?thesis by auto
  next
    case False
    with r have "mergedHeap h as a = h a" by (simp add: mergedHeap_def)
    then show ?thesis by simp
  qed
  show "mergedHeap h (as @ [a]) =
      (mergedHeap h as)(r := (mergedHeap h as r)\<lparr>Labels :=
          Add (Labels (mergedHeap h as r)) (Labels (mergedHeap h as a))\<rparr>)"
  proof (rule ext)
    fix b
    show "mergedHeap h (as @ [a]) b =
      ((mergedHeap h as)(r := (mergedHeap h as r)\<lparr>Labels :=
          Add (Labels (mergedHeap h as r)) (Labels (mergedHeap h as a))\<rparr>)) b"
    proof (cases "b = r")
      case True
      have "mergedHeap h (as @ [a]) r = (h r)\<lparr>Labels := labelsNamed h as (Name (h a)) \<union> Labels (h a)\<rparr>"
        using f' nr by (simp add: mergedHeap_def labelsNamed_snoc_same)
      with True la mr show ?thesis
        by (simp add: Add_def)
    next
      case False
      show ?thesis
      proof (cases "Name (h b) = Name (h a)")
        case True
        with False r f' have "mergedHeap h (as @ [a]) b = h b" and "mergedHeap h as b = h b"
          by (simp_all add: mergedHeap_def)
        with False show ?thesis by simp
      next
        case n: False
        from mergedHeap_other [of h b a as] n False show ?thesis by simp
      qed
    qed
  qed
qed

text \<open>
  The invariant of the loop: after the addresses \<open>pre\<close> the heap is
  \<open>mergedHeap h pre\<close> and the map is \<open>firstNamed h pre\<close>.
\<close>

lemma mergeLoop_closed:
  "mergeLoop (map Some xs) (mergedHeap h pre, firstNamed h pre)
     = Inr (mergedHeap h (pre @ xs), firstNamed h (pre @ xs))"
proof (induction xs arbitrary: pre)
  case Nil
  show ?case by simp
next
  case (Cons a xs)
  have ih: "mergeLoop (map Some xs) (mergedHeap h (pre @ [a]), firstNamed h (pre @ [a]))
      = Inr (mergedHeap h (pre @ a # xs), firstNamed h (pre @ a # xs))"
    using Cons.IH [of "pre @ [a]"] by simp
  show ?case
  proof (cases "firstNamed h pre (Name (h a))")
    case None
    have "mergeLoop (map Some (a # xs)) (mergedHeap h pre, firstNamed h pre)
        = mergeLoop (map Some xs) (mergedHeap h pre, (firstNamed h pre)(Name (h a) \<mapsto> a))"
      by (simp add: Name_mergedHeap None)
    also have "\<dots> = mergeLoop (map Some xs) (mergedHeap h (pre @ [a]), firstNamed h (pre @ [a]))"
      by (simp only: step_new [OF None])
    finally show ?thesis
      by (simp only: ih)
  next
    case (Some r)
    have "mergeLoop (map Some (a # xs)) (mergedHeap h pre, firstNamed h pre)
        = mergeLoop (map Some xs)
            ((mergedHeap h pre)(r := (mergedHeap h pre r)\<lparr>Labels :=
                Add (Labels (mergedHeap h pre r)) (Labels (mergedHeap h pre a))\<rparr>),
             firstNamed h pre)"
      by (simp add: Name_mergedHeap Some)
    also have "\<dots> = mergeLoop (map Some xs) (mergedHeap h (pre @ [a]), firstNamed h (pre @ [a]))"
      by (simp only: step_old [OF Some])
    finally show ?thesis
      by (simp only: ih)
  qed
qed

lemma mergeLoop_all:
  "mergeLoop (map Some as) (h, Map.empty) = Inr (mergedHeap h as, firstNamed h as)"
  using mergeLoop_closed [of as h "[]"] by (simp add: mergedHeap_Nil firstNamed_Nil)

text \<open>A nil pointer anywhere in the list makes the loop panic.\<close>

lemma mergeLoop_nil: "None \<in> set services \<Longrightarrow> mergeLoop services st = Inl NilDereference"
proof (induction services arbitrary: st)
  case Nil
  then show ?case by simp
next
  case (Cons s1 rest)
  obtain h m where st: "st = (h, m)" by (cases st)
  show ?case
  proof (cases s1)
    case None
    then show ?thesis by (simp add: st)
  next
    case (Some a)
    with Cons.prems have "None \<in> set rest" by auto
    with Cons.IH Some show ?thesis
      by (simp add: st split: option.splits)
  qed
qed

lemma dom_firstNamed: "dom (firstNamed h as) = (\<lambda>a. Name (h a)) ` set as"
proof -
  have "n \<in> dom (firstNamed h as) \<longleftrightarrow> n \<in> (\<lambda>a. Name (h a)) ` set as" for n
    using firstNamed_None_iff [of h as n] by (cases "firstNamed h as n") auto
  then show ?thesis by blast
qed

lemma filter_distinct_key:
  "distinct (map f xs) \<Longrightarrow> a \<in> set xs \<Longrightarrow> filter (\<lambda>b. f b = f a) xs = [a]"
proof (induction xs)
  case Nil
  then show ?case by simp
next
  case (Cons x xs)
  show ?case
  proof (cases "x = a")
    case True
    from Cons.prems(1) True have "f a \<notin> f ` set xs" by simp
    then have "\<forall>b \<in> set xs. f b \<noteq> f a" by (metis imageI)
    then have "filter (\<lambda>b. f b = f a) xs = []" by (simp add: filter_empty_conv)
    with True show ?thesis by simp
  next
    case False
    with Cons.prems have a: "a \<in> set xs" and "f x \<noteq> f a" by auto
    with Cons.IH Cons.prems(1) show ?thesis by simp
  qed
qed

lemma find_distinct_key:
  "distinct (map f xs) \<Longrightarrow> a \<in> set xs \<Longrightarrow> find (\<lambda>b. f b = f a) xs = Some a"
proof (induction xs)
  case Nil
  then show ?case by simp
next
  case (Cons x xs)
  show ?case
  proof (cases "x = a")
    case True
    then show ?thesis by simp
  next
    case False
    with Cons.prems have a: "a \<in> set xs" and "f x \<noteq> f a" by auto
    with Cons.IH Cons.prems(1) show ?thesis by simp
  qed
qed

lemma mergedHeap_distinct:
  assumes d: "distinct (map (\<lambda>a. Name (h a)) as)"
  shows "mergedHeap h as = h"
proof (rule ext)
  fix a
  show "mergedHeap h as a = h a"
  proof (cases "firstNamed h as (Name (h a)) = Some a")
    case True
    from firstNamed_Some [OF True] have "a \<in> set as" by simp
    from filter_distinct_key [OF d this] have "labelsNamed h as (Name (h a)) = Labels (h a)"
      by (simp add: labelsNamed_def)
    with True show ?thesis by (simp add: mergedHeap_def)
  next
    case False
    then show ?thesis by (simp add: mergedHeap_def)
  qed
qed

text \<open>What a list returned by the range loop looks like.\<close>

lemma range_reps:
  assumes dk: "distinct keys" and sk: "set keys = dom (firstNamed h as)"
  defines "reps \<equiv> map (\<lambda>k. the (firstNamed h as k)) keys"
  shows "map (firstNamed h as) keys = map Some reps"
    and "map (\<lambda>a. Name (h a)) reps = keys"
    and "\<forall>a \<in> set reps. firstNamed h as (Name (h a)) = Some a"
    and "\<forall>a. firstNamed h as (Name (h a)) = Some a \<longrightarrow> a \<in> set reps"
proof -
  have key: "firstNamed h as k = Some (the (firstNamed h as k)) \<and> Name (h (the (firstNamed h as k))) = k"
    if "k \<in> set keys" for k
  proof -
    from that sk obtain b where b: "firstNamed h as k = Some b" by auto
    with firstNamed_Some [OF b] show ?thesis by simp
  qed
  show "map (firstNamed h as) keys = map Some reps"
    using key by (simp add: reps_def)
  show n: "map (\<lambda>a. Name (h a)) reps = keys"
    using key by (simp add: reps_def map_idI)
  show "\<forall>a \<in> set reps. firstNamed h as (Name (h a)) = Some a"
    using key by (auto simp add: reps_def)
  show "\<forall>a. firstNamed h as (Name (h a)) = Some a \<longrightarrow> a \<in> set reps"
  proof (intro allI impI)
    fix a
    assume a: "firstNamed h as (Name (h a)) = Some a"
    then have "Name (h a) \<in> set keys" using sk by auto
    then have "the (firstNamed h as (Name (h a))) \<in> set reps"
      by (simp add: reps_def)
    with a show "a \<in> set reps" by simp
  qed
qed


lemma mergeServices_nil:
  "None \<in> set services \<Longrightarrow> mergeServices h services res \<Longrightarrow> res = Inl NilDereference"
  by (erule mergeServices.cases) (auto simp add: mergeLoop_nil)

lemma GetServices_merge_pass:
  assumes "GetServices repo (Some req) w (res, w')"
    and "callStorage (CallGetServices \<lparr>GSF_Service = GSR_Service req\<rparr>)
           (storage_GetServices repo \<lparr>GSF_Service = GSR_Service req\<rparr>) w = (Inr (h, services), w1)"
  shows "w' = w1 \<and> mergeServices h services res"
  using assms by (cases rule: GetServices.cases) auto

text \<open>
  Claim C1. For every non-empty list of Service records (pointers to Services, none nil)
  passed through the merge pass of GetServices, the pass returns, and whatever the order
  in which the map is ranged over: the result has exactly one record per distinct name of
  the list; the record of a name is the first one of the list with that name; its labels
  are the union of the label sets of all the records of the list with that name, its
  other fields are as before; no other Service object is changed; and when the names of
  the list are all distinct the heap is unchanged and the result is the list, up to order.
\<close>

theorem mergeServices_merges:
  assumes ne: "as \<noteq> []"
  shows "(\<exists>res. mergeServices h (map Some as) res)
    \<and> (\<forall>res. mergeServices h (map Some as) res \<longrightarrow>
        (\<exists>h' reps. res = Inr (h', map Some reps)
           \<and> distinct (map (\<lambda>a. Name (h' a)) reps)
           \<and> set (map (\<lambda>a. Name (h' a)) reps) = set (map (\<lambda>a. Name (h a)) as)
           \<and> (\<forall>a \<in> set reps. firstNamed h as (Name (h a)) = Some a
                 \<and> h' a = (h a)\<lparr>Labels := labelsNamed h as (Name (h a))\<rparr>)
           \<and> (\<forall>a. a \<notin> set reps \<longrightarrow> h' a = h a)
           \<and> (distinct (map (\<lambda>a. Name (h a)) as) \<longrightarrow> h' = h \<and> mset reps = mset as)))"
proof (intro conjI allI impI)
  have "finite (dom (firstNamed h as))"
    by (simp add: dom_firstNamed)
  from finite_distinct_list [OF this] obtain keys
    where keys: "set keys = dom (firstNamed h as)" "distinct keys" by blast
  from ne have "length (map Some as) \<noteq> 0" by simp
  from mergeServices_range [OF this mergeLoop_all keys(2) keys(1)]
  show "\<exists>res. mergeServices h (map Some as) res" by blast
next
  fix res
  assume "mergeServices h (map Some as) res"
  then show "\<exists>h' reps. res = Inr (h', map Some reps)
           \<and> distinct (map (\<lambda>a. Name (h' a)) reps)
           \<and> set (map (\<lambda>a. Name (h' a)) reps) = set (map (\<lambda>a. Name (h a)) as)
           \<and> (\<forall>a \<in> set reps. firstNamed h as (Name (h a)) = Some a
                 \<and> h' a = (h a)\<lparr>Labels := labelsNamed h as (Name (h a))\<rparr>)
           \<and> (\<forall>a. a \<notin> set reps \<longrightarrow> h' a = h a)
           \<and> (distinct (map (\<lambda>a. Name (h a)) as) \<longrightarrow> h' = h \<and> mset reps = mset as)"
  proof (cases rule: mergeServices.cases)
    case mergeServices_empty
    with ne show ?thesis by simp
  next
    case (mergeServices_panic e)
    then show ?thesis by (simp add: mergeLoop_all)
  next
    case (mergeServices_range h' servicesSet keys)
    from mergeServices_range(3) have h': "h' = mergedHeap h as" and m: "servicesSet = firstNamed h as"
      by (simp_all add: mergeLoop_all)
    define reps where "reps = map (\<lambda>k. the (firstNamed h as k)) keys"
    from mergeServices_range(4,5) m have dk: "distinct keys" and sk: "set keys = dom (firstNamed h as)"
      by simp_all
    note rr = range_reps [OF dk sk, folded reps_def]
    have names: "map (\<lambda>a. Name (h' a)) reps = keys"
      using rr(2) by (simp add: h' Name_mergedHeap)
    have r1: "res = Inr (h', map Some reps)"
      using mergeServices_range(1) m rr(1) by simp
    have r2: "distinct (map (\<lambda>a. Name (h' a)) reps)"
      using names dk by simp
    have r3: "set (map (\<lambda>a. Name (h' a)) reps) = set (map (\<lambda>a. Name (h a)) as)"
      using names sk by (simp add: dom_firstNamed)
    have r4: "\<forall>a \<in> set reps. firstNamed h as (Name (h a)) = Some a
                 \<and> h' a = (h a)\<lparr>Labels := labelsNamed h as (Name (h a))\<rparr>"
      using rr(3) by (simp add: h' mergedHeap_def)
    have r5: "\<forall>a. a \<notin> set reps \<longrightarrow> h' a = h a"
      using rr(4) by (auto simp add: h' mergedHeap_def)
    have r6: "h' = h \<and> mset reps = mset as" if d: "distinct (map (\<lambda>a. Name (h a)) as)"
    proof
      show "h' = h" by (simp add: h' mergedHeap_distinct [OF d])
      from r2 have dr: "distinct reps" by (rule distinct_map [THEN iffD1, THEN conjunct1])
      from d have da: "distinct as" by (rule distinct_map [THEN iffD1, THEN conjunct1])
      have "set reps = set as"
      proof
        show "set reps \<subseteq> set as"
          using rr(3) firstNamed_Some by blast
        show "set as \<subseteq> set reps"
        proof
          fix a
          assume "a \<in> set as"
          from find_distinct_key [OF d this] have "firstNamed h as (Name (h a)) = Some a"
            by (simp add: firstNamed_def)
          with rr(4) show "a \<in> set reps" by simp
        qed
      qed
      with dr da show "mset reps = mset as"
        by (simp add: set_eq_iff_mset_eq_distinct)
    qed
    from r1 r2 r3 r4 r5 r6 show ?thesis by blast
  qed
qed

theorem mergeServices_merges_witness:
  "[0, 1, 2] \<noteq> ([] :: addr list)
   \<and> (\<exists>res. mergeServices exampleHeap (map Some [0, 1, 2]) res)
   \<and> mergeServices exampleHeap (map Some [0, 1, 2])
        (Inr (mergedHeap exampleHeap [0, 1, 2], [Some 2, Some 0]))
   \<and> mergedHeap exampleHeap [0, 1, 2] 0
        = \<lparr>Name = ''svc'', BuildID = ''build-1'', Token = ''t1'',
           Labels = {(''env'', ''prod''), (''region'', ''us'')}\<rparr>
   \<and> mergedHeap exampleHeap [0, 1, 2] 1 = exampleHeap 1
   \<and> mergedHeap exampleHeap [0, 1, 2] 2 = exampleHeap 2"
proof -
  let ?as = "[0, 1, 2] :: addr list"
  have ne: "?as \<noteq> []" by simp
  have f: "firstNamed exampleHeap ?as ''db'' = Some 2" "firstNamed exampleHeap ?as ''svc'' = Some 0"
    by (simp_all add: firstNamed_def exampleHeap_def)
  have d: "set [''db'', ''svc''] = dom (firstNamed exampleHeap ?as)"
    by (auto simp add: dom_firstNamed exampleHeap_def)
  have l: "labelsNamed exampleHeap ?as ''svc'' = {(''env'', ''prod''), (''region'', ''us'')}"
    by (simp add: labelsNamed_def exampleHeap_def insert_commute)
  have "length (map Some ?as) \<noteq> 0" by simp
  from mergeServices_range [OF this mergeLoop_all _ d] f
  have run: "mergeServices exampleHeap (map Some ?as) (Inr (mergedHeap exampleHeap ?as, [Some 2, Some 0]))"
    by simp
  note res = mergeServices_merges [OF ne, of exampleHeap]
  from res have ex: "\<exists>res. mergeServices exampleHeap (map Some ?as) res"
    by (rule conjunct1)
  have n0: "Name (exampleHeap 0) = ''svc''" and n2: "Name (exampleHeap 2) = ''db''"
    by (simp_all add: exampleHeap_def)
  have l2: "labelsNamed exampleHeap ?as ''db'' = {(''tier'', ''1'')}"
    by (simp add: labelsNamed_def exampleHeap_def)
  from res [THEN conjunct2, rule_format, OF run]
  have heap: "mergedHeap exampleHeap ?as 0
        = \<lparr>Name = ''svc'', BuildID = ''build-1'', Token = ''t1'',
           Labels = {(''env'', ''prod''), (''region'', ''us'')}\<rparr>
      \<and> mergedHeap exampleHeap ?as 1 = exampleHeap 1
      \<and> mergedHeap exampleHeap ?as 2 = exampleHeap 2"
  proof (elim exE conjE)
    fix h' reps
    assume r: "Inr (mergedHeap exampleHeap ?as, [Some 2, Some 0]) = Inr (h', map Some reps)"
      and m: "\<forall>a \<in> set reps. firstNamed exampleHeap ?as (Name (exampleHeap a)) = Some a
                 \<and> h' a = (exampleHeap a)\<lparr>Labels := labelsNamed exampleHeap ?as (Name (exampleHeap a))\<rparr>"
      and u: "\<forall>a. a \<notin> set reps \<longrightarrow> h' a = exampleHeap a"
    from r have h': "h' = mergedHeap exampleHeap ?as" and "map Some reps = [Some 2, Some 0]"
      by simp_all
    then have reps: "reps = [2, 0]" by (auto simp add: map_eq_Cons_conv)
    from m reps l n0 have m0: "h' 0 = \<lparr>Name = ''svc'', BuildID = ''build-1'', Token = ''t1'',
           Labels = {(''env'', ''prod''), (''region'', ''us'')}\<rparr>"
      by (simp add: exampleHeap_def)
    from u reps have m1: "h' 1 = exampleHeap 1" by simp
    from m reps n2 l2 have m2: "h' 2 = exampleHeap 2"
      by (simp add: exampleHeap_def)
    from m0 m1 m2 show ?thesis
      by (simp only: h' simp_thms)
  qed
  from ne ex run heap show ?thesis
    by (simp only: simp_thms)
qed

end
